theory Spec2Isabelle
  imports Complex_Main "HOL-Library.Sublist" "HOL-Library.Multiset"
begin

section \<open>JavaScript strings and numbers\<close>

text \<open>
  The plugin \<^verbatim>\<open>src/plugins/ikb/index.ts\<close> works on JavaScript strings. A string is a
  \<^typ>\<open>string\<close> here. The code looks for ASCII digits, hyphens and keywords only, and
  changes the case of text for that purpose alone, so \<open>toLowerCase\<close> and \<open>toUpperCase\<close>
  are given on the letters \<^verbatim>\<open>A\<close> to \<^verbatim>\<open>Z\<close> and \<^verbatim>\<open>a\<close> to \<^verbatim>\<open>z\<close> and leave every other
  character as it is. Counts and scores are integers, printed in decimal as a template
  string prints an integral number.
\<close>

definition is_digit :: "char \<Rightarrow> bool" where
  \<comment> \<open>the class \<^verbatim>\<open>\d\<close> of a JavaScript regular expression: \<^verbatim>\<open>0\<close> to \<^verbatim>\<open>9\<close>\<close>
  "is_digit c = (48 \<le> (of_char c :: nat) \<and> (of_char c :: nat) \<le> 57)"

definition digit_char :: "nat \<Rightarrow> char" where
  "digit_char n = char_of (48 + n)"

fun show_nat :: "nat \<Rightarrow> string" where
  "show_nat n = (if n < 10 then [digit_char n] else show_nat (n div 10) @ [digit_char (n mod 10)])"

declare show_nat.simps [simp del]

definition show_int :: "int \<Rightarrow> string" where
  \<comment> \<open>\<^verbatim>\<open>`${n}`\<close> and \<^verbatim>\<open>n.toString()\<close> for an integral number\<close>
  "show_int i = (if i < 0 then CHR ''-'' # show_nat (nat (- i)) else show_nat (nat i))"

definition padStart :: "nat \<Rightarrow> char \<Rightarrow> string \<Rightarrow> string" where
  \<comment> \<open>\<^verbatim>\<open>s.padStart(n, c)\<close> for a one-character filler\<close>
  "padStart n c s = replicate (n - length s) c @ s"

definition toLowerCase_char :: "char \<Rightarrow> char" where
  "toLowerCase_char c =
     (if 65 \<le> (of_char c :: nat) \<and> (of_char c :: nat) \<le> 90
      then char_of ((of_char c :: nat) + 32) else c)"

definition toLowerCase :: "string \<Rightarrow> string" where
  "toLowerCase s = map toLowerCase_char s"

definition toUpperCase_char :: "char \<Rightarrow> char" where
  "toUpperCase_char c =
     (if 97 \<le> (of_char c :: nat) \<and> (of_char c :: nat) \<le> 122
      then char_of ((of_char c :: nat) - 32) else c)"

definition toUpperCase :: "string \<Rightarrow> string" where
  "toUpperCase s = map toUpperCase_char s"

fun starts_with :: "string \<Rightarrow> string \<Rightarrow> bool" where
  "starts_with [] s = True"
| "starts_with (k # ks) [] = False"
| "starts_with (k # ks) (c # cs) = (k = c \<and> starts_with ks cs)"

fun includes_str :: "string \<Rightarrow> string \<Rightarrow> bool" where
  \<comment> \<open>\<^verbatim>\<open>s.includes(k)\<close>: \<open>k\<close> occurs in \<open>s\<close> at some position\<close>
  "includes_str [] k = starts_with k []"
| "includes_str (c # cs) k = (starts_with k (c # cs) \<or> includes_str cs k)"

fun join :: "string \<Rightarrow> string list \<Rightarrow> string" where
  \<comment> \<open>\<^verbatim>\<open>xs.join(sep)\<close>\<close>
  "join sep [] = []"
| "join sep [x] = x"
| "join sep (x # y # ys) = x @ sep @ join sep (y # ys)"

section \<open>Query interpreter\<close>

subsection \<open>The date pattern\<close>

text \<open>
  \<^verbatim>\<open>query.match(/\d{4}-\d{2}-\d{2}/)\<close>: a regular expression that is a sequence of
  one-character atoms, searched from the left; the match is the text the atoms cover.
\<close>

datatype atom = Digit | Lit char

fun atom_ok :: "atom \<Rightarrow> char \<Rightarrow> bool" where
  "atom_ok Digit c = is_digit c"
| "atom_ok (Lit k) c = (c = k)"

fun match_here :: "atom list \<Rightarrow> string \<Rightarrow> bool" where
  "match_here [] s = True"
| "match_here (a # as) [] = False"
| "match_here (a # as) (c # cs) = (atom_ok a c \<and> match_here as cs)"

fun regex_match :: "atom list \<Rightarrow> string \<Rightarrow> string option" where
  "regex_match re [] = (if match_here re [] then Some [] else None)"
| "regex_match re (c # cs) =
     (if match_here re (c # cs) then Some (take (length re) (c # cs)) else regex_match re cs)"

definition date_regex :: "atom list" where
  "date_regex = replicate 4 Digit @ [Lit CHR ''-''] @ replicate 2 Digit @ [Lit CHR ''-'']
     @ replicate 2 Digit"

subsection \<open>The clock\<close>

text \<open>
  \<^verbatim>\<open>new Date()\<close> reads the clock. A reading is given by its UTC fields;
  \<^verbatim>\<open>toISOString\<close> prints them as \<^verbatim>\<open>YYYY-MM-DDTHH:mm:ss.sssZ\<close>, with a sign and six
  digits for a year outside 0 to 9999.
\<close>

record js_date =
  utc_year :: int
  utc_month :: nat
  utc_day :: nat
  utc_hours :: nat
  utc_minutes :: nat
  utc_seconds :: nat
  utc_millis :: nat

definition iso_year :: "int \<Rightarrow> string" where
  "iso_year y =
     (if 0 \<le> y \<and> y \<le> 9999 then padStart 4 CHR ''0'' (show_nat (nat y))
      else (if y < 0 then CHR ''-'' else CHR ''+'') # padStart 6 CHR ''0'' (show_nat (nat \<bar>y\<bar>)))"

definition toISOString :: "js_date \<Rightarrow> string" where
  "toISOString d =
     iso_year (utc_year d) @ ''-'' @ padStart 2 CHR ''0'' (show_nat (utc_month d)) @ ''-''
     @ padStart 2 CHR ''0'' (show_nat (utc_day d)) @ ''T''
     @ padStart 2 CHR ''0'' (show_nat (utc_hours d)) @ '':''
     @ padStart 2 CHR ''0'' (show_nat (utc_minutes d)) @ '':''
     @ padStart 2 CHR ''0'' (show_nat (utc_seconds d)) @ ''.''
     @ padStart 3 CHR ''0'' (show_nat (utc_millis d)) @ ''Z''"

definition formatDate :: "js_date \<Rightarrow> string" where
  \<comment> \<open>\<^verbatim>\<open>date.toISOString().split('T')[0]\<close>: the text before the first \<^verbatim>\<open>T\<close>\<close>
  "formatDate date = takeWhile (\<lambda>c. c \<noteq> CHR ''T'') (toISOString date)"

definition extractDateFromQuery :: "js_date \<Rightarrow> string \<Rightarrow> string" where
  "extractDateFromQuery now query =
     (case regex_match date_regex query of
        Some dateMatch \<Rightarrow> dateMatch
      | None \<Rightarrow> formatDate now)"

subsection \<open>The sport\<close>

datatype sport = Nfl | Nba

fun sport_str :: "sport \<Rightarrow> string" where
  "sport_str Nfl = ''nfl''"
| "sport_str Nba = ''nba''"

definition extractSportFromQuery :: "string \<Rightarrow> sport" where
  "extractSportFromQuery query =
     (let lowerQuery = toLowerCase query in
      if includes_str lowerQuery ''nfl'' \<or> includes_str lowerQuery ''football'' then Nfl
      else if includes_str lowerQuery ''nba'' \<or> includes_str lowerQuery ''basketball'' then Nba
      else Nba)"


section \<open>Errors\<close>

text \<open>
  What a \<^verbatim>\<open>throw\<close> or a rejected promise carries. \<open>Error\<close> is the plugin's own
  \<^verbatim>\<open>new Error(...)\<close>, \<open>TypeError\<close> is what JavaScript raises for a method call on
  \<^verbatim>\<open>undefined\<close>; the other two come from the collaborators.
\<close>

datatype js_error =
    Error string
  | TypeError string
  | ValidationError string
  | Failure string

section \<open>Data model\<close>

text \<open>
  The response body is parsed JSON and is not checked against the interfaces
  \<^verbatim>\<open>IKBGameData\<close>, \<^verbatim>\<open>IKBTeamStats\<close>, \<^verbatim>\<open>IKBPlayerStats\<close>. A field on which the formatters
  call a method or which they dereference (\<^verbatim>\<open>game\<close>, \<^verbatim>\<open>quarters\<close>, \<^verbatim>\<open>teams\<close>, \<^verbatim>\<open>players\<close>,
  the two percentages, \<^verbatim>\<open>seconds\<close>) is optional here: \<open>None\<close> is \<^verbatim>\<open>undefined\<close>, and using
  it raises a \<open>TypeError\<close>. \<^verbatim>\<open>fantasyPoints\<close> is optional too, the code guards it with
  \<^verbatim>\<open>|| 0\<close>. The other fields are only interpolated and are taken as present.
  Percentages and fantasy points are fractional numbers, modelled by their exact value.
\<close>

record quarter =
  number :: int
  awayScore :: int
  homeScore :: int

record game_info =
  season :: int
  status :: string
  dateTime :: string
  awayTeam :: string
  homeTeam :: string
  awayTeamScore :: int
  homeTeamScore :: int
  stadium :: string
  quarters :: "quarter list option"

record team_stats =
  name :: string
  abbrev :: string
  score :: int
  fieldGoalsPercentage :: "rat option"
  threePointersPercentage :: "rat option"
  rebounds :: int
  assists :: int
  steals :: int
  blockedShots :: int
  turnovers :: int

record player_stats =
  name :: string
  position :: string
  played :: bool
  started :: int
  minutes :: int
  seconds :: "int option"
  points :: int
  rebounds :: int
  assists :: int
  steals :: int
  blockedShots :: int
  fieldGoalsMade :: int
  fieldGoalsAttempted :: int
  threePointersMade :: int
  threePointersAttempted :: int
  freeThrowsMade :: int
  freeThrowsAttempted :: int
  fantasyPoints :: "rat option"

record game_data =
  game :: "game_info option"
  teams :: "team_stats list option"
  players :: "player_stats list option"

record search_response =
  data :: "game_data list"
  count :: int

definition well_formed :: "game_data \<Rightarrow> bool" where
  \<comment> \<open>the record has the fields of its interface that the formatters work on\<close>
  "well_formed d \<longleftrightarrow>
     (case game d of None \<Rightarrow> False | Some g \<Rightarrow> quarters g \<noteq> None) \<and>
     (case teams d of None \<Rightarrow> False
      | Some ts \<Rightarrow> list_all (\<lambda>t. fieldGoalsPercentage t \<noteq> None \<and> threePointersPercentage t \<noteq> None) ts) \<and>
     (case players d of None \<Rightarrow> False
      | Some ps \<Rightarrow> list_all (\<lambda>p. seconds p \<noteq> None) ps)"

section \<open>Response formatter\<close>

definition newline :: string where
  "newline = [CHR 0x0A]"

fun map_result :: "('a \<Rightarrow> js_error + 'b) \<Rightarrow> 'a list \<Rightarrow> js_error + 'b list" where
  \<comment> \<open>\<^verbatim>\<open>xs.map(f)\<close> where \<open>f\<close> may throw: the first throw ends the loop\<close>
  "map_result f [] = Inr []"
| "map_result f (x # xs) =
     (case f x of
        Inl e \<Rightarrow> Inl e
      | Inr y \<Rightarrow> (case map_result f xs of Inl e \<Rightarrow> Inl e | Inr ys \<Rightarrow> Inr (y # ys)))"

definition quarter_text :: "quarter \<Rightarrow> string" where
  "quarter_text q =
     ''Q'' @ show_int (number q) @ '': '' @ show_int (awayScore q) @ ''-'' @ show_int (homeScore q)"

definition formatGameSummary :: "(string \<Rightarrow> string) \<Rightarrow> game_data \<Rightarrow> js_error + string" where
  \<comment> \<open>the first argument is \<^verbatim>\<open>new Date(s).toLocaleDateString()\<close>, which depends on the host's locale\<close>
  "formatGameSummary localeDate d =
     (case game d of
        None \<Rightarrow> Inl (TypeError ''game'')
      | Some g \<Rightarrow>
          (case quarters g of
             None \<Rightarrow> Inl (TypeError ''quarters'')
           | Some qs \<Rightarrow>
               let qtext = join '', '' (map quarter_text qs) in
               Inr (awayTeam g @ '' '' @ show_int (awayTeamScore g) @ '' @ '' @ homeTeam g @ '' ''
                      @ show_int (homeTeamScore g) @ newline
                    @ ''Date: '' @ localeDate (dateTime g) @ newline
                    @ ''Quarter Scores: '' @ qtext @ newline
                    @ ''Status: '' @ status g @ newline
                    @ ''Stadium: '' @ stadium g)))"

definition team_block :: "(rat \<Rightarrow> string) \<Rightarrow> team_stats \<Rightarrow> js_error + string" where
  \<comment> \<open>the first argument is \<^verbatim>\<open>x.toFixed(1)\<close>\<close>
  "team_block fixed1 team =
     (case fieldGoalsPercentage team of
        None \<Rightarrow> Inl (TypeError ''fieldGoalsPercentage'')
      | Some fg \<Rightarrow>
          (case threePointersPercentage team of
             None \<Rightarrow> Inl (TypeError ''threePointersPercentage'')
           | Some tp \<Rightarrow>
               Inr (team_stats.name team @ '' ('' @ abbrev team @ '')'' @ newline
                    @ ''Score: '' @ show_int (score team) @ newline
                    @ ''FG%: '' @ fixed1 fg @ ''%, 3P%: '' @ fixed1 tp @ ''%'' @ newline
                    @ ''Rebounds: '' @ show_int (team_stats.rebounds team)
                      @ '', Assists: '' @ show_int (team_stats.assists team) @ newline
                    @ ''Steals: '' @ show_int (team_stats.steals team)
                      @ '', Blocks: '' @ show_int (team_stats.blockedShots team))))"

definition formatTeamStats :: "(rat \<Rightarrow> string) \<Rightarrow> game_data \<Rightarrow> js_error + string" where
  "formatTeamStats fixed1 d =
     (case teams d of
        None \<Rightarrow> Inl (TypeError ''teams'')
      | Some ts \<Rightarrow>
          (case map_result (team_block fixed1) ts of
             Inl e \<Rightarrow> Inl e
           | Inr blocks \<Rightarrow> Inr (join (newline @ newline) blocks)))"

text \<open>
  \<^verbatim>\<open>xs.sort(cmp)\<close>: a stable sort; \<open>a\<close> stays before \<open>b\<close> unless \<open>cmp a b\<close> is positive.
\<close>

fun insert_by :: "('a \<Rightarrow> 'a \<Rightarrow> rat) \<Rightarrow> 'a \<Rightarrow> 'a list \<Rightarrow> 'a list" where
  "insert_by cmp x [] = [x]"
| "insert_by cmp x (y # ys) = (if cmp x y \<le> 0 then x # y # ys else y # insert_by cmp x ys)"

definition js_sort :: "('a \<Rightarrow> 'a \<Rightarrow> rat) \<Rightarrow> 'a list \<Rightarrow> 'a list" where
  "js_sort cmp xs = foldr (insert_by cmp) xs []"

definition or_zero :: "rat option \<Rightarrow> rat" where
  \<comment> \<open>\<^verbatim>\<open>v || 0\<close>: a missing value and zero are both falsy\<close>
  "or_zero v = (case v of None \<Rightarrow> 0 | Some x \<Rightarrow> if x = 0 then 0 else x)"

definition byFantasyPoints :: "player_stats \<Rightarrow> player_stats \<Rightarrow> rat" where
  "byFantasyPoints a b = or_zero (fantasyPoints b) - or_zero (fantasyPoints a)"

definition player_block :: "player_stats \<Rightarrow> js_error + string" where
  "player_block player =
     (case seconds player of
        None \<Rightarrow> Inl (TypeError ''seconds'')
      | Some sec \<Rightarrow>
          let mins = show_int (minutes player) @ '':'' @ padStart 2 CHR ''0'' (show_int sec);
              shooting = show_int (fieldGoalsMade player) @ ''/''
                @ show_int (fieldGoalsAttempted player) @ '' FG, ''
                @ show_int (threePointersMade player) @ ''/''
                @ show_int (threePointersAttempted player) @ '' 3P''
          in Inr (player_stats.name player @ '' ('' @ position player @ '') - '' @ mins @ '' min''
                    @ newline
                  @ show_int (points player) @ '' PTS, '' @ show_int (player_stats.rebounds player)
                    @ '' REB, '' @ show_int (player_stats.assists player) @ '' AST'' @ newline
                  @ shooting))"

definition formatPlayerStats :: "game_data \<Rightarrow> js_error + string" where
  "formatPlayerStats d =
     (case players d of
        None \<Rightarrow> Inl (TypeError ''players'')
      | Some ps \<Rightarrow>
          (case map_result player_block (take 10 (js_sort byFantasyPoints (filter played ps))) of
             Inl e \<Rightarrow> Inl e
           | Inr blocks \<Rightarrow> Inr (join (newline @ newline) blocks)))"

section \<open>The action\<close>

datatype search_type = Game | Teams | Players

record plugin_config =
  apiKey :: string
  maxResults :: nat
  searchType :: "search_type option"
  filters :: "(sport \<times> string) option"

record ikb_memory =
  content_text :: string
  content_sport :: sport
  content_date :: string
  content_data :: "game_data list"
  roomId :: string
  userId :: string

record search_result =
  title :: string
  url :: string
  snippet :: string
  result_score :: int
  source :: string
  metadata_sport :: sport
  metadata_date :: string
  metadata_dataType :: "search_type option"

record action_result =
  success :: bool
  response :: string

text \<open>
  What the handler does to the outside, in order: \<open>HttpGet\<close> is a GET request, with its
  URL and its \<^verbatim>\<open>Authorization\<close> header; \<open>CreateMemory\<close> is a record handed to the memory
  manager, with the \<^verbatim>\<open>embed\<close> option.
\<close>

datatype event =
    HttpGet string string
  | CreateMemory ikb_memory bool

datatype fetch_reply =
    NetworkFailure js_error
  | HttpResponse bool string "js_error + search_response"

text \<open>
  The collaborators of one call. \<open>checkLimit\<close>, \<open>validateSearchQuery\<close> and
  \<open>formatSearchResults\<close> are functions of \<^verbatim>\<open>common/utils.ts\<close>, taken as they are;
  \<open>fetch\<close> answers a request for a URL and an \<^verbatim>\<open>Authorization\<close> header with a failure of
  the network or with a response (\<^verbatim>\<open>ok\<close>, \<^verbatim>\<open>statusText\<close>, the outcome of \<^verbatim>\<open>json()\<close>);
  \<open>getMemoryManager\<close> and \<open>createMemory\<close> belong to the runtime; \<open>clock\<close> is
  \<^verbatim>\<open>new Date()\<close>. The rate limiter keeps a state of type \<open>'l\<close>.
\<close>

record 'l world =
  checkLimit :: "'l \<Rightarrow> bool \<times> 'l"
  validateSearchQuery :: "string \<Rightarrow> js_error + string"
  formatSearchResults :: "search_result list \<Rightarrow> string"
  describeError :: "js_error \<Rightarrow> string"
  fetch :: "string \<Rightarrow> string \<Rightarrow> fetch_reply"
  getMemoryManager :: "js_error + unit"
  createMemory :: "ikb_memory \<Rightarrow> bool \<Rightarrow> js_error + unit"
  clock :: js_date
  toLocaleDateString :: "string \<Rightarrow> string"
  toFixed1 :: "rat \<Rightarrow> string"

definition handleApiError :: "'l world \<Rightarrow> js_error \<Rightarrow> action_result" where
  \<comment> \<open>Modelled from the spec: \<^verbatim>\<open>handleApiError\<close> of \<^verbatim>\<open>common/utils.ts\<close>, which is not among
     the sources, "maps any thrown error into a \<^verbatim>\<open>{ success: false, response: string }\<close>
     shape"; the text it chooses for an error is the collaborator \<open>describeError\<close>.\<close>
  "handleApiError w e = \<lparr>success = False, response = describeError w e\<rparr>"

definition validate :: "'l world \<Rightarrow> string \<Rightarrow> bool" where
  \<comment> \<open>the action's \<^verbatim>\<open>validate\<close>, on \<^verbatim>\<open>message.content.text\<close>\<close>
  "validate w message_text =
     (case validateSearchQuery w message_text of
        Inr query \<Rightarrow> True
      | Inl e \<Rightarrow> False)"

definition api_url :: "string \<Rightarrow> string \<Rightarrow> string" where
  "api_url sport date = ''https://api.ikb.gg/ai/'' @ sport @ ''/'' @ date"

definition fetchFromAPI ::
  "'l world \<Rightarrow> plugin_config \<Rightarrow> string \<Rightarrow> string \<Rightarrow> (js_error + search_response) \<times> event list" where
  "fetchFromAPI w cfg sport date =
     (let authorization = ''Bearer '' @ apiKey cfg in
      (case fetch w (api_url sport date) authorization of
         NetworkFailure e \<Rightarrow> Inl e
       | HttpResponse ok statusText body \<Rightarrow>
           if \<not> ok then Inl (Error (''IKB API error: '' @ statusText)) else body,
       [HttpGet (api_url sport date) authorization]))"

definition memorizeData ::
  "'l world \<Rightarrow> sport \<Rightarrow> string \<Rightarrow> game_data list \<Rightarrow> (js_error + unit) \<times> event list" where
  "memorizeData w sport date gs =
     (let memory = \<lparr>content_text = sport_str sport @ '' game data for '' @ date,
                     content_sport = sport, content_date = date, content_data = gs,
                     roomId = ''default'', userId = ''system''\<rparr> in
      case getMemoryManager w of
        Inl e \<Rightarrow> (Inl e, [])
      | Inr memoryManager \<Rightarrow> (createMemory w memory True, [CreateMemory memory True]))"

definition formatContent :: "'l world \<Rightarrow> plugin_config \<Rightarrow> game_data list \<Rightarrow> js_error + string" where
  \<comment> \<open>the \<^verbatim>\<open>formattedContent\<close> of the handler\<close>
  "formatContent w cfg gs =
     (case gs of
        [] \<Rightarrow> Inr []
      | gameData # rest \<Rightarrow>
          (case searchType cfg of
             Some Game \<Rightarrow> formatGameSummary (toLocaleDateString w) gameData
           | Some Teams \<Rightarrow> formatTeamStats (toFixed1 w) gameData
           | Some Players \<Rightarrow> formatPlayerStats gameData
           | None \<Rightarrow> formatGameSummary (toLocaleDateString w) gameData))"

definition make_results ::
  "plugin_config \<Rightarrow> sport \<Rightarrow> string \<Rightarrow> string \<Rightarrow> search_result list" where
  "make_results cfg sport date formattedContent =
     [\<lparr>title = toUpperCase (sport_str sport) @ '' Stats for '' @ date,
       url = api_url (sport_str sport) date,
       snippet = formattedContent,
       result_score = 1,
       source = ''ikb'',
       metadata_sport = sport,
       metadata_date = date,
       metadata_dataType = searchType cfg\<rparr>]"

definition handler_try ::
  "'l world \<Rightarrow> plugin_config \<Rightarrow> string \<Rightarrow> (js_error + action_result) \<times> event list" where
  \<comment> \<open>the \<^verbatim>\<open>try\<close> block once the rate limiter has let the call through\<close>
  "handler_try w cfg message_text =
     (case validateSearchQuery w message_text of
        Inl e \<Rightarrow> (Inl e, [])
      | Inr query \<Rightarrow>
          let date = extractDateFromQuery (clock w) query;
              sport = extractSportFromQuery query
          in (case fetchFromAPI w cfg (sport_str sport) date of
                (Inl e, sent) \<Rightarrow> (Inl e, sent)
              | (Inr body, sent) \<Rightarrow>
                  (case memorizeData w sport date (data body) of
                     (Inl e, stored) \<Rightarrow> (Inl e, sent @ stored)
                   | (Inr u, stored) \<Rightarrow>
                       (case formatContent w cfg (data body) of
                          Inl e \<Rightarrow> (Inl e, sent @ stored)
                        | Inr formattedContent \<Rightarrow>
                            (Inr \<lparr>success = True,
                                  response = formatSearchResults w
                                    (make_results cfg sport date formattedContent)\<rparr>,
                             sent @ stored)))))"

definition handler ::
  "'l world \<Rightarrow> plugin_config \<Rightarrow> 'l \<Rightarrow> string \<Rightarrow> action_result \<times> event list \<times> 'l" where
  \<comment> \<open>the result, what was sent out, and the rate limiter's state afterwards\<close>
  "handler w cfg limiter message_text =
     (case checkLimit w limiter of
        (False, limiter') \<Rightarrow>
          (\<lparr>success = False, response = ''Rate limit exceeded. Please try again later.''\<rparr>,
           [], limiter')
      | (True, limiter') \<Rightarrow>
          (case handler_try w cfg message_text of
             (Inr result, events) \<Rightarrow> (result, events, limiter')
           | (Inl error, events) \<Rightarrow> (handleApiError w error, events, limiter')))"

section \<open>Notions of the specification\<close>

text \<open>
  The words of the specification, to state the properties with: a text of the shape
  \<^verbatim>\<open>YYYY-MM-DD\<close>, an occurrence of a text at a position of another, and an occurrence of
  a keyword whatever the case of the letters.
\<close>

definition date_pattern :: "string \<Rightarrow> bool" where
  "date_pattern s =
     (case s of
        [y1, y2, y3, y4, h1, m1, m2, h2, d1, d2] \<Rightarrow>
          is_digit y1 \<and> is_digit y2 \<and> is_digit y3 \<and> is_digit y4 \<and> h1 = CHR ''-'' \<and>
          is_digit m1 \<and> is_digit m2 \<and> h2 = CHR ''-'' \<and> is_digit d1 \<and> is_digit d2
      | _ \<Rightarrow> False)"

definition occurs_at :: "string \<Rightarrow> nat \<Rightarrow> string \<Rightarrow> bool" where
  "occurs_at q i d \<longleftrightarrow> (\<exists>pre post. q = pre @ d @ post \<and> length pre = i)"

definition contains_ci :: "string \<Rightarrow> string \<Rightarrow> bool" where
  "contains_ci q kw \<longleftrightarrow>
     (\<exists>pre mid post. q = pre @ mid @ post \<and> toLowerCase mid = toLowerCase kw)"

text \<open>
  For the players view: the fantasy points of a player with a missing value counted as
  zero; a list that holds ten of the players who played, or all of them when there are
  fewer, in descending order of points, none of those left out having more points than one
  that is in; the seconds in two digits; and the text of one player.
\<close>

definition points_or_zero :: "player_stats \<Rightarrow> rat" where
  "points_or_zero p = (case fantasyPoints p of None \<Rightarrow> 0 | Some v \<Rightarrow> v)"

definition top_ten_of :: "player_stats list \<Rightarrow> player_stats list \<Rightarrow> bool" where
  "top_ten_of ps shown \<longleftrightarrow>
     (\<exists>rest. mset shown + mset rest = mset (filter played ps) \<and>
        length shown = min 10 (length (filter played ps)) \<and>
        sorted_wrt (\<lambda>a b. points_or_zero b \<le> points_or_zero a) shown \<and>
        (\<forall>a\<in>set shown. \<forall>b\<in>set rest. points_or_zero b \<le> points_or_zero a))"

definition seconds_text :: "int \<Rightarrow> string" where
  "seconds_text s = (if 0 \<le> s \<and> s < 10 then [CHR ''0'', digit_char (nat s)] else show_int s)"

definition player_text :: "player_stats \<Rightarrow> string" where
  "player_text p =
     player_stats.name p @ '' ('' @ position p @ '') - '' @ show_int (minutes p) @ '':''
       @ (case seconds p of Some s \<Rightarrow> seconds_text s | None \<Rightarrow> []) @ '' min'' @ newline
     @ show_int (points p) @ '' PTS, '' @ show_int (player_stats.rebounds p) @ '' REB, ''
       @ show_int (player_stats.assists p) @ '' AST'' @ newline
     @ show_int (fieldGoalsMade p) @ ''/'' @ show_int (fieldGoalsAttempted p) @ '' FG, ''
       @ show_int (threePointersMade p) @ ''/'' @ show_int (threePointersAttempted p) @ '' 3P''"

text \<open>
  For the game view: the lines of a text, which are its parts between line breaks, and a
  text without a line break.
\<close>

fun lines :: "string \<Rightarrow> string list" where
  "lines [] = [[]]"
| "lines (c # cs) =
     (case lines cs of
        [] \<Rightarrow> [[c]]
      | l # ls \<Rightarrow> if c = CHR 0x0A then [] # l # ls else (c # l) # ls)"

definition one_line :: "string \<Rightarrow> bool" where
  "one_line s \<longleftrightarrow> CHR 0x0A \<notin> set s"

section \<open>Example records\<close>

definition ex_game :: game_info where
  "ex_game = \<lparr>season = 2024, status = ''Final'', dateTime = ''2024-12-15T19:30:00'',
     awayTeam = ''Celtics'', homeTeam = ''Lakers'', awayTeamScore = 35, homeTeamScore = 38,
     stadium = ''Crypto.com Arena'',
     quarters = Some [\<lparr>number = 1, awayScore = 20, homeScore = 18\<rparr>,
                      \<lparr>number = 2, awayScore = 15, homeScore = 20\<rparr>]\<rparr>"

definition ex_player :: "string \<Rightarrow> bool \<Rightarrow> int \<Rightarrow> rat option \<Rightarrow> player_stats" where
  "ex_player n pl sec fp =
     \<lparr>name = n, position = ''G'', played = pl, started = 1, minutes = 30, seconds = Some sec,
      points = 20, rebounds = 5, assists = 7, steals = 1, blockedShots = 0,
      fieldGoalsMade = 8, fieldGoalsAttempted = 15, threePointersMade = 2,
      threePointersAttempted = 5, freeThrowsMade = 2, freeThrowsAttempted = 2,
      fantasyPoints = fp\<rparr>"

definition ex_players :: "player_stats list" where
  "ex_players = [ex_player ''Ann'' True 5 None, ex_player ''Bob'' False 0 (Some 50),
     ex_player ''Cy'' True 42 (Some 30), ex_player ''Di'' True 0 (Some (25 / 2))]"

definition ex_many :: "player_stats list" where
  "ex_many = map (\<lambda>n. ex_player (show_nat n) True 7 (Some (of_nat n))) [0..<12]"

definition ex_now :: js_date where
  "ex_now = \<lparr>utc_year = 2026, utc_month = 11, utc_day = 3, utc_hours = 9, utc_minutes = 24,
     utc_seconds = 5, utc_millis = 7\<rparr>"

definition ex_world :: "nat world" where
  \<comment> \<open>a limiter that counts the calls of its window, a validator that refuses the empty
     text, an API without games on any day, a memory manager that stores\<close>
  "ex_world =
     \<lparr>checkLimit = (\<lambda>n. if n < 60 then (True, Suc n) else (False, n)),
      validateSearchQuery =
        (\<lambda>t. if t = [] then Inl (ValidationError ''Search query is required'') else Inr t),
      formatSearchResults = (\<lambda>rs. concat (map (\<lambda>r. title r @ '': '' @ snippet r) rs)),
      describeError =
        (\<lambda>e. case e of Error m \<Rightarrow> m | TypeError m \<Rightarrow> m | ValidationError m \<Rightarrow> m | Failure m \<Rightarrow> m),
      fetch = (\<lambda>u a. HttpResponse True ''OK'' (Inr \<lparr>data = [], count = 0\<rparr>)),
      getMemoryManager = Inr (),
      createMemory = (\<lambda>m embed. Inr ()),
      clock = ex_now,
      toLocaleDateString = (\<lambda>s. ''12/15/2024''),
      toFixed1 = (\<lambda>x. ''0.0'')\<rparr>"

definition ex_config :: plugin_config where
  "ex_config = \<lparr>apiKey = ''key'', maxResults = 5, searchType = Some Game,
     filters = Some (Nfl, ''2024-01-01'')\<rparr>"

definition ex_failing_store :: "nat world" where
  "ex_failing_store =
     ex_world\<lparr>createMemory := (\<lambda>m embed. Inl (Failure ''memory store unavailable''))\<rparr>"




section \<open>Properties\<close>

lemma date_pattern_length: "date_pattern s \<Longrightarrow> length s = 10"
  by (auto simp: date_pattern_def split: list.splits)


lemma date_regex_unfold:
  "date_regex = [Digit, Digit, Digit, Digit, Lit CHR ''-'', Digit, Digit, Lit CHR ''-'', Digit, Digit]"
  by (simp add: date_regex_def numeral_eq_Suc)

lemma date_pattern_iff: "date_pattern s \<longleftrightarrow> list_all2 atom_ok date_regex s"
  unfolding date_regex_unfold date_pattern_def
  by (auto simp: list_all2_Cons1 split: list.splits)

lemma match_here_iff:
  "match_here re s \<longleftrightarrow> length re \<le> length s \<and> list_all2 atom_ok re (take (length re) s)"
  by (induction re s rule: match_here.induct) auto

lemma match_here_date: "match_here date_regex s \<longleftrightarrow> date_pattern (take 10 s)"
proof -
  have len: "length date_regex = 10" by (simp add: date_regex_def)
  show ?thesis
    unfolding match_here_iff date_pattern_iff len
    using len by (auto dest: list_all2_lengthD)
qed


lemma regex_match_None:
  "regex_match re s = None \<longleftrightarrow> (\<forall>i\<le>length s. \<not> match_here re (drop i s))"
proof (induction s)
  case Nil
  then show ?case by simp
next
  case (Cons c cs)
  have "(\<forall>i\<le>length (c # cs). \<not> match_here re (drop i (c # cs))) \<longleftrightarrow>
        \<not> match_here re (c # cs) \<and> (\<forall>i\<le>length cs. \<not> match_here re (drop i cs))"
    (is "?L \<longleftrightarrow> ?R")
  proof
    assume l: ?L
    have "\<not> match_here re (c # cs)" using l [rule_format, of 0] by simp
    moreover have "\<forall>i\<le>length cs. \<not> match_here re (drop i cs)"
    proof (intro allI impI)
      fix i assume "i \<le> length cs"
      then show "\<not> match_here re (drop i cs)" using l [rule_format, of "Suc i"] by simp
    qed
    ultimately show ?R by simp
  next
    assume r: ?R
    show ?L
    proof (intro allI impI)
      fix i assume "i \<le> length (c # cs)"
      then show "\<not> match_here re (drop i (c # cs))" using r by (cases i) auto
    qed
  qed
  with Cons show ?case by simp
qed

lemma regex_match_Some:
  "regex_match re s = Some m \<Longrightarrow>
     \<exists>i\<le>length s. match_here re (drop i s) \<and> m = take (length re) (drop i s) \<and>
       (\<forall>j<i. \<not> match_here re (drop j s))"
proof (induction s)
  case Nil
  then show ?case by (auto split: if_splits)
next
  case (Cons c cs)
  show ?case
  proof (cases "match_here re (c # cs)")
    case True
    with Cons.prems have "m = take (length re) (c # cs)" by simp
    with True show ?thesis by (intro exI [of _ 0]) simp
  next
    case False
    with Cons.prems have "regex_match re cs = Some m" by simp
    from Cons.IH [OF this] obtain i where i: "i \<le> length cs" "match_here re (drop i cs)"
      "m = take (length re) (drop i cs)" "\<forall>j<i. \<not> match_here re (drop j cs)" by blast
    have "\<forall>j<Suc i. \<not> match_here re (drop j (c # cs))"
    proof (intro allI impI)
      fix j assume "j < Suc i"
      then show "\<not> match_here re (drop j (c # cs))" using False i(4) by (cases j) auto
    qed
    with i(1-3) show ?thesis by (intro exI [of _ "Suc i"]) simp
  qed
qed

lemma occurs_at_iff:
  "occurs_at q i d \<longleftrightarrow> i + length d \<le> length q \<and> d = take (length d) (drop i q)"
proof
  assume "occurs_at q i d"
  then show "i + length d \<le> length q \<and> d = take (length d) (drop i q)"
    by (auto simp: occurs_at_def)
next
  assume a: "i + length d \<le> length q \<and> d = take (length d) (drop i q)"
  have "q = take i q @ take (length d) (drop i q) @ drop (length d) (drop i q)"
    by (metis append_take_drop_id)
  with a have "q = take i q @ d @ drop (length d) (drop i q)" by simp
  moreover have "length (take i q) = i" using a by simp
  ultimately show "occurs_at q i d" unfolding occurs_at_def by blast
qed

lemma date_at_iff:
  "occurs_at q i d \<and> date_pattern d \<longleftrightarrow>
     i \<le> length q \<and> match_here date_regex (drop i q) \<and> d = take 10 (drop i q)"
proof -
  have "date_pattern (take 10 (drop i q)) \<Longrightarrow> i + 10 \<le> length q"
    by (drule date_pattern_length) simp
  then show ?thesis
    by (auto simp: occurs_at_iff match_here_date date_pattern_length)
qed

lemma extract_first_date:
  assumes "occurs_at q i d" "date_pattern d"
    and "\<forall>j d'. occurs_at q j d' \<and> date_pattern d' \<longrightarrow> i \<le> j"
  shows "extractDateFromQuery now q = d"
proof -
  from assms(1,2) have i: "i \<le> length q" "match_here date_regex (drop i q)" "d = take 10 (drop i q)"
    using date_at_iff [of q i d] by simp_all
  then have "regex_match date_regex q \<noteq> None"
    unfolding regex_match_None by blast
  then obtain m where m: "regex_match date_regex q = Some m" by blast
  from regex_match_Some [OF this] obtain k where k: "k \<le> length q"
    "match_here date_regex (drop k q)" "m = take (length date_regex) (drop k q)"
    "\<forall>j<k. \<not> match_here date_regex (drop j q)" by blast
  have len: "length date_regex = 10" by (simp add: date_regex_def)
  from k(1-3) have "occurs_at q k m \<and> date_pattern m"
    unfolding date_at_iff len by simp
  with assms(3) have "i \<le> k" by blast
  moreover have "\<not> i < k" using k(4) i(2) by blast
  ultimately have "i = k" by simp
  with k(3) i(3) len have "m = d" by simp
  with m show ?thesis by (simp add: extractDateFromQuery_def)
qed

lemma extract_no_date:
  assumes "\<forall>j d'. occurs_at q j d' \<longrightarrow> \<not> date_pattern d'"
  shows "extractDateFromQuery now q = formatDate now"
proof -
  have "\<forall>i\<le>length q. \<not> match_here date_regex (drop i q)"
  proof (intro allI impI)
    fix i assume "i \<le> length q"
    show "\<not> match_here date_regex (drop i q)"
    proof
      assume "match_here date_regex (drop i q)"
      with \<open>i \<le> length q\<close> have "occurs_at q i (take 10 (drop i q)) \<and> date_pattern (take 10 (drop i q))"
        unfolding date_at_iff by simp
      with assms show False by blast
    qed
  qed
  then have "regex_match date_regex q = None" unfolding regex_match_None .
  then show ?thesis by (simp add: extractDateFromQuery_def)
qed


lemma is_digit_digit_char: "n < 10 \<Longrightarrow> is_digit (digit_char n)"
  by (simp add: is_digit_def digit_char_def)

lemma show_nat_digits: "list_all is_digit (show_nat n)"
proof (induction n rule: show_nat.induct)
  case (1 n)
  show ?case
  proof (cases "n < 10")
    case True
    then show ?thesis by (subst show_nat.simps) (simp add: is_digit_digit_char)
  next
    case False
    with 1 show ?thesis by (subst show_nat.simps) (simp add: is_digit_digit_char)
  qed
qed

lemma show_nat_nonempty: "show_nat n \<noteq> []"
  by (subst show_nat.simps) simp

lemma show_nat_length: "n < 10 ^ k \<Longrightarrow> 0 < k \<Longrightarrow> length (show_nat n) \<le> k"
proof (induction n arbitrary: k rule: show_nat.induct)
  case (1 n)
  show ?case
  proof (cases "n < 10")
    case True
    then show ?thesis using "1.prems" by (subst show_nat.simps) simp
  next
    case False
    from "1.prems" obtain k' where k: "k = Suc k'" by (cases k) auto
    from False "1.prems" k have "0 < k'" by (cases k') auto
    moreover from "1.prems" k have "n div 10 < 10 ^ k'" by (simp add: less_mult_imp_div_less mult.commute)
    ultimately have "length (show_nat (n div 10)) \<le> k'" using "1.IH" [OF False] by simp
    with False k show ?thesis by (subst show_nat.simps) simp
  qed
qed

lemma padStart_digits:
  assumes "n < 10 ^ k" "0 < k"
  shows "length (padStart k CHR ''0'' (show_nat n)) = k"
    and "list_all is_digit (padStart k CHR ''0'' (show_nat n))"
proof -
  from show_nat_length [OF assms] show "length (padStart k CHR ''0'' (show_nat n)) = k"
    by (simp add: padStart_def)
  have "is_digit CHR ''0''" by (simp add: is_digit_def)
  then show "list_all is_digit (padStart k CHR ''0'' (show_nat n))"
    using show_nat_digits [of n] by (auto simp: padStart_def list_all_iff)
qed

lemma is_digit_not_T: "is_digit c \<Longrightarrow> c \<noteq> CHR ''T''"
  by (auto simp: is_digit_def)

lemma formatDate_default:
  assumes "0 \<le> utc_year now" "utc_year now \<le> 9999" "utc_month now \<le> 12" "utc_day now \<le> 31"
  shows "formatDate now =
           padStart 4 CHR ''0'' (show_nat (nat (utc_year now))) @ ''-''
           @ padStart 2 CHR ''0'' (show_nat (utc_month now)) @ ''-''
           @ padStart 2 CHR ''0'' (show_nat (utc_day now))" (is "_ = ?Y @ _ @ ?M @ _ @ ?D")
    and "date_pattern (formatDate now)"
proof -
  have y: "length ?Y = 4" "list_all is_digit ?Y"
    using padStart_digits [of "nat (utc_year now)" 4] assms(1,2) by simp_all
  have m: "length ?M = 2" "list_all is_digit ?M"
    using padStart_digits [of "utc_month now" 2] assms(3) by simp_all
  have d: "length ?D = 2" "list_all is_digit ?D"
    using padStart_digits [of "utc_day now" 2] assms(4) by simp_all
  let ?S = "?Y @ ''-'' @ ?M @ ''-'' @ ?D"
  have noT: "\<forall>c\<in>set ?S. c \<noteq> CHR ''T''"
    using y(2) m(2) d(2) by (auto simp: list_all_iff dest: is_digit_not_T)
  obtain rest where iso: "toISOString now = ?S @ CHR ''T'' # rest"
    using assms(1,2) by (simp add: toISOString_def iso_year_def)
  have "takeWhile (\<lambda>c. c \<noteq> CHR ''T'') (?S @ CHR ''T'' # rest) = ?S"
    using noT by (subst takeWhile_append2) auto
  with iso show fd: "formatDate now = ?S" by (simp add: formatDate_def)
  obtain y1 y2 y3 y4 where Y: "?Y = [y1, y2, y3, y4]"
    using y(1) by (auto simp: length_Suc_conv numeral_eq_Suc)
  obtain m1 m2 where M: "?M = [m1, m2]"
    using m(1) by (auto simp: length_Suc_conv numeral_eq_Suc)
  obtain d1 d2 where D: "?D = [d1, d2]"
    using d(1) by (auto simp: length_Suc_conv numeral_eq_Suc)
  show "date_pattern (formatDate now)"
    unfolding fd using y(2) m(2) d(2) unfolding Y M D by (simp add: date_pattern_def)
qed

lemma no_date_by_search:
  assumes "regex_match date_regex q = None"
  shows "\<forall>j d. occurs_at q j d \<longrightarrow> \<not> date_pattern d"
proof (intro allI impI notI)
  fix j d
  assume "occurs_at q j d" "date_pattern d"
  then have "j \<le> length q" "match_here date_regex (drop j q)"
    using date_at_iff [of q j d] by simp_all
  with assms show False
    unfolding regex_match_None by blast
qed

text \<open>
  Claim C1. The date of a query is the first text of the shape \<^verbatim>\<open>YYYY-MM-DD\<close> (four
  digits, a hyphen, two digits, a hyphen, two digits) that occurs in it, taken as it is,
  whether or not it is a date of the calendar; a query in which no such text occurs gets the
  date of the clock, which for a year from 0 to 9999 is printed as the four digits of the
  year, the two of the month and the two of the day in UTC, with hyphens between.
\<close>

theorem date_extraction:
  "(occurs_at q i d \<and> date_pattern d \<and>
      (\<forall>j d'. occurs_at q j d' \<and> date_pattern d' \<longrightarrow> i \<le> j)
      \<longrightarrow> extractDateFromQuery now q = d) \<and>
   ((\<forall>j d'. occurs_at q j d' \<longrightarrow> \<not> date_pattern d')
      \<longrightarrow> extractDateFromQuery now q = formatDate now) \<and>
   (0 \<le> utc_year now \<and> utc_year now \<le> 9999 \<and> 1 \<le> utc_month now \<and> utc_month now \<le> 12 \<and>
      1 \<le> utc_day now \<and> utc_day now \<le> 31
      \<longrightarrow> formatDate now =
            padStart 4 CHR ''0'' (show_nat (nat (utc_year now))) @ ''-''
            @ padStart 2 CHR ''0'' (show_nat (utc_month now)) @ ''-''
            @ padStart 2 CHR ''0'' (show_nat (utc_day now))
          \<and> date_pattern (formatDate now))"
  using extract_first_date [of q i d now] extract_no_date [of q now]
    formatDate_default [of now]
  by blast

theorem date_extraction_witness:
  "extractDateFromQuery
     \<lparr>utc_year = 2026, utc_month = 11, utc_day = 3, utc_hours = 9, utc_minutes = 24,
      utc_seconds = 5, utc_millis = 7\<rparr> ''on 2024-13-40 or 2025-01-02'' = ''2024-13-40'' \<and>
   extractDateFromQuery
     \<lparr>utc_year = 2026, utc_month = 11, utc_day = 3, utc_hours = 9, utc_minutes = 24,
      utc_seconds = 5, utc_millis = 7\<rparr> ''nba 24-12-15'' = ''2026-11-03'' \<and>
   date_pattern (formatDate
     \<lparr>utc_year = 2026, utc_month = 11, utc_day = 3, utc_hours = 9, utc_minutes = 24,
      utc_seconds = 5, utc_millis = 7\<rparr>)"
proof -
  let ?now = "\<lparr>utc_year = 2026, utc_month = 11, utc_day = 3, utc_hours = 9, utc_minutes = 24,
    utc_seconds = 5, utc_millis = 7\<rparr>"
  let ?q = "''on 2024-13-40 or 2025-01-02''"
  have occ: "occurs_at ?q 3 ''2024-13-40''"
    unfolding occurs_at_iff by simp
  have pat: "date_pattern ''2024-13-40''"
    by code_simp
  have first: "\<forall>j d'. occurs_at ?q j d' \<and> date_pattern d' \<longrightarrow> 3 \<le> j"
  proof (intro allI impI)
    fix j d'
    assume "occurs_at ?q j d' \<and> date_pattern d'"
    then have m: "match_here date_regex (drop j ?q)"
      unfolding date_at_iff by simp
    have "\<not> match_here date_regex (drop k ?q)" if "k < 3" for k
    proof -
      from that consider "k = 0" | "k = 1" | "k = 2" by linarith
      then show ?thesis
        by cases (simp_all add: date_regex_unfold is_digit_def)
    qed
    with m have "\<not> j < 3" by blast
    then show "3 \<le> j" by simp
  qed
  have none: "\<forall>j d'. occurs_at ''nba 24-12-15'' j d' \<longrightarrow> \<not> date_pattern d'"
  proof (intro allI impI)
    fix j d'
    assume "occurs_at ''nba 24-12-15'' j d'"
    then have occ': "j + length d' \<le> 12" "d' = take (length d') (drop j ''nba 24-12-15'')"
      unfolding occurs_at_iff by simp_all
    show "\<not> date_pattern d'"
    proof
      assume p: "date_pattern d'"
      then have len: "length d' = 10" by (rule date_pattern_length)
      with occ'(1) consider "j = 0" | "j = 1" | "j = 2" by linarith
      then have "\<not> date_pattern (take 10 (drop j ''nba 24-12-15''))"
        by cases (simp_all add: date_pattern_def is_digit_def)
      with p occ'(2) len show False by simp
    qed
  qed
  have fmt: "formatDate ?now = ''2026-11-03''"
    by code_simp
  from date_extraction [of ?q 3 "''2024-13-40''" ?now] occ pat first
  have 1: "extractDateFromQuery ?now ?q = ''2024-13-40''"
    by blast
  from date_extraction [of "''nba 24-12-15''" 0 "[]" ?now] none fmt
  have 2: "extractDateFromQuery ?now ''nba 24-12-15'' = ''2026-11-03''"
    by simp
  have range: "0 \<le> utc_year ?now \<and> utc_year ?now \<le> 9999 \<and> 1 \<le> utc_month ?now \<and>
    utc_month ?now \<le> 12 \<and> 1 \<le> utc_day ?now \<and> utc_day ?now \<le> 31"
    by simp
  from date_extraction [of "[]" 0 "[]" ?now] range
  have 3: "date_pattern (formatDate ?now)"
    by blast
  from 1 2 3 show ?thesis by simp
qed

lemma starts_with_prefix: "starts_with k s \<longleftrightarrow> prefix k s"
  by (induction k s rule: starts_with.induct) auto

lemma includes_str_sublist: "includes_str s k \<longleftrightarrow> sublist k s"
  by (induction s) (auto simp: starts_with_prefix sublist_Cons_right)

lemma sublist_map_iff:
  "sublist k (map f q) \<longleftrightarrow> (\<exists>pre mid post. q = pre @ mid @ post \<and> map f mid = k)"
proof
  assume "sublist k (map f q)"
  then obtain ps ss where "map f q = ps @ k @ ss" by (auto simp: sublist_def)
  have q: "q = take (length ps) q @ take (length k) (drop (length ps) q)
      @ drop (length k) (drop (length ps) q)"
    by (metis append_take_drop_id)
  have "take (length k) (drop (length ps) (map f q)) = k"
    using \<open>map f q = ps @ k @ ss\<close> by simp
  then have "map f (take (length k) (drop (length ps) q)) = k"
    by (simp add: take_map drop_map)
  with q show "\<exists>pre mid post. q = pre @ mid @ post \<and> map f mid = k"
    by blast
next
  assume "\<exists>pre mid post. q = pre @ mid @ post \<and> map f mid = k"
  then obtain pre mid post where "q = pre @ mid @ post" "map f mid = k" by blast
  then have "map f q = map f pre @ k @ map f post" by simp
  then show "sublist k (map f q)" unfolding sublist_def by blast
qed

lemma contains_ci_iff:
  "contains_ci q kw \<longleftrightarrow> includes_str (toLowerCase q) (toLowerCase kw)"
  by (simp add: includes_str_sublist contains_ci_def toLowerCase_def sublist_map_iff)

lemma kw_lower: "toLowerCase ''nfl'' = ''nfl''" "toLowerCase ''football'' = ''football''"
  "toLowerCase ''nba'' = ''nba''" "toLowerCase ''basketball'' = ''basketball''"
  by code_simp+

text \<open>
  Claim C2. The sport of a query is found by a case-insensitive substring match: a query
  that contains \<^verbatim>\<open>nfl\<close> or \<^verbatim>\<open>football\<close>, in any mix of upper and lower case, gives
  \<open>Nfl\<close>; otherwise one that contains \<^verbatim>\<open>nba\<close> or \<^verbatim>\<open>basketball\<close> gives \<open>Nba\<close>; a
  query with keywords of both sets gives \<open>Nfl\<close>; a query with none of them gives \<open>Nba\<close>.
\<close>

theorem sport_extraction:
  "(contains_ci q ''nfl'' \<or> contains_ci q ''football'' \<longrightarrow> extractSportFromQuery q = Nfl) \<and>
   (\<not> contains_ci q ''nfl'' \<and> \<not> contains_ci q ''football'' \<and>
      (contains_ci q ''nba'' \<or> contains_ci q ''basketball'') \<longrightarrow> extractSportFromQuery q = Nba) \<and>
   ((contains_ci q ''nfl'' \<or> contains_ci q ''football'') \<and>
      (contains_ci q ''nba'' \<or> contains_ci q ''basketball'') \<longrightarrow> extractSportFromQuery q = Nfl) \<and>
   (\<not> contains_ci q ''nfl'' \<and> \<not> contains_ci q ''football'' \<and>
      \<not> contains_ci q ''nba'' \<and> \<not> contains_ci q ''basketball'' \<longrightarrow> extractSportFromQuery q = Nba)"
  by (simp add: extractSportFromQuery_def contains_ci_iff kw_lower)

theorem sport_extraction_witness:
  "contains_ci ''NBA vs Football'' ''football'' \<and> contains_ci ''NBA vs Football'' ''nba'' \<and>
   extractSportFromQuery ''NBA vs Football'' = Nfl \<and>
   \<not> contains_ci ''Basketball tonight'' ''nfl'' \<and> \<not> contains_ci ''Basketball tonight'' ''football'' \<and>
   contains_ci ''Basketball tonight'' ''basketball'' \<and>
   extractSportFromQuery ''Basketball tonight'' = Nba \<and>
   \<not> contains_ci ''scores'' ''nfl'' \<and> \<not> contains_ci ''scores'' ''football'' \<and>
   \<not> contains_ci ''scores'' ''nba'' \<and> \<not> contains_ci ''scores'' ''basketball'' \<and>
   extractSportFromQuery ''scores'' = Nba"
proof -
  have a: "contains_ci ''NBA vs Football'' ''football''" "contains_ci ''NBA vs Football'' ''nba''"
    unfolding contains_ci_iff by code_simp+
  have b: "\<not> contains_ci ''Basketball tonight'' ''nfl''"
    "\<not> contains_ci ''Basketball tonight'' ''football''"
    "contains_ci ''Basketball tonight'' ''basketball''"
    unfolding contains_ci_iff by code_simp+
  have c: "\<not> contains_ci ''scores'' ''nfl''" "\<not> contains_ci ''scores'' ''football''"
    "\<not> contains_ci ''scores'' ''nba''" "\<not> contains_ci ''scores'' ''basketball''"
    unfolding contains_ci_iff by code_simp+
  from a b c sport_extraction [of "''NBA vs Football''"]
    sport_extraction [of "''Basketball tonight''"] sport_extraction [of "''scores''"]
  show ?thesis by blast
qed

lemma or_zero_points: "or_zero (fantasyPoints p) = points_or_zero p"
  by (simp add: or_zero_def points_or_zero_def split: option.splits)

lemma insert_by_insort:
  "insert_by byFantasyPoints x ys = insort_key (\<lambda>p. - points_or_zero p) x ys"
  by (induction ys) (simp_all add: byFantasyPoints_def or_zero_points)

lemma js_sort_sort_key:
  "js_sort byFantasyPoints xs = sort_key (\<lambda>p. - points_or_zero p) xs"
proof -
  have "insert_by byFantasyPoints = insort_key (\<lambda>p. - points_or_zero p)"
    by (intro ext) (rule insert_by_insort)
  then show ?thesis by (simp add: js_sort_def sort_key_def)
qed

lemma js_sort_descending:
  "sorted_wrt (\<lambda>a b. points_or_zero b \<le> points_or_zero a) (js_sort byFantasyPoints xs)"
proof -
  have "sorted (map (\<lambda>p. - points_or_zero p) (sort_key (\<lambda>p. - points_or_zero p) xs))"
    by (rule sorted_sort_key)
  then show ?thesis
    by (simp add: js_sort_sort_key sorted_map)
qed

lemma sorted_wrt_take_drop:
  "sorted_wrt R xs \<Longrightarrow> \<forall>a\<in>set (take n xs). \<forall>b\<in>set (drop n xs). R a b"
  by (metis append_take_drop_id sorted_wrt_append)

lemma top_ten_js_sort:
  "top_ten_of ps (take 10 (js_sort byFantasyPoints (filter played ps)))"
proof -
  let ?s = "js_sort byFantasyPoints (filter played ps)"
  have m: "mset ?s = mset (filter played ps)" by (simp add: js_sort_sort_key)
  have "mset (take 10 ?s) + mset (drop 10 ?s) = mset ?s"
    by (metis append_take_drop_id mset_append)
  with m have 1: "mset (take 10 ?s) + mset (drop 10 ?s) = mset (filter played ps)" by simp
  have "length ?s = length (filter played ps)" by (simp add: js_sort_sort_key)
  then have 2: "length (take 10 ?s) = min 10 (length (filter played ps))" by simp
  have d: "sorted_wrt (\<lambda>a b. points_or_zero b \<le> points_or_zero a) ?s"
    by (rule js_sort_descending)
  then have 3: "sorted_wrt (\<lambda>a b. points_or_zero b \<le> points_or_zero a) (take 10 ?s)"
    by (rule sorted_wrt_take)
  from d have 4: "\<forall>a\<in>set (take 10 ?s). \<forall>b\<in>set (drop 10 ?s). points_or_zero b \<le> points_or_zero a"
    by (rule sorted_wrt_take_drop)
  from 1 2 3 4 show ?thesis unfolding top_ten_of_def by blast
qed

lemma map_result_total:
  assumes "\<forall>x\<in>set xs. f x = Inr (g x)"
  shows "map_result f xs = Inr (map g xs)"
  using assms by (induction xs) simp_all

lemma show_nat_small: "n < 10 \<Longrightarrow> show_nat n = [digit_char n]"
  by (subst show_nat.simps) simp

lemma show_nat_large: "10 \<le> n \<Longrightarrow> 2 \<le> length (show_nat n)"
proof -
  assume "10 \<le> n"
  then have "show_nat n = show_nat (n div 10) @ [digit_char (n mod 10)]"
    by (subst show_nat.simps) simp
  moreover have "1 \<le> length (show_nat (n div 10))"
    using show_nat_nonempty [of "n div 10"] by (cases "show_nat (n div 10)") simp_all
  ultimately show ?thesis by simp
qed

lemma padStart_seconds: "padStart 2 CHR ''0'' (show_int s) = seconds_text s"
proof -
  consider "s < 0" | "0 \<le> s" "s < 10" | "10 \<le> s" by linarith
  then show ?thesis
  proof cases
    case 1
    then have "2 \<le> length (show_int s)"
      using show_nat_nonempty [of "nat (- s)"]
      by (cases "show_nat (nat (- s))") (simp_all add: show_int_def)
    with 1 show ?thesis by (simp add: padStart_def seconds_text_def)
  next
    case 2
    then have "show_int s = [digit_char (nat s)]"
      by (simp add: show_int_def show_nat_small)
    with 2 show ?thesis by (simp add: padStart_def seconds_text_def)
  next
    case 3
    then have "2 \<le> length (show_int s)"
      using show_nat_large [of "nat s"] by (simp add: show_int_def)
    with 3 show ?thesis by (simp add: padStart_def seconds_text_def)
  qed
qed

lemma player_block_text: "seconds p = Some s \<Longrightarrow> player_block p = Inr (player_text p)"
  by (simp add: player_block_def player_text_def padStart_seconds)

text \<open>
  Claim C3. For a game record whose players all carry their seconds, the players view is
  the texts of the players shown, joined with a blank line between two of them. The
  players shown are players whose participation flag is true, in descending order of
  fantasy points with a missing value counted as zero, ten of them at most, and no player
  left out has more points than one shown. The text of a player is the name, the position
  and minutes:seconds with the seconds in two digits, then the line of points, rebounds and
  assists, then the made/attempted line for field goals and three-pointers.
\<close>

theorem players_view:
  assumes "players d = Some ps" and "\<forall>p\<in>set ps. seconds p \<noteq> None"
  shows "\<exists>shown. top_ten_of ps shown \<and>
           formatPlayerStats d = Inr (join (newline @ newline) (map player_text shown))"
proof -
  let ?shown = "take 10 (js_sort byFantasyPoints (filter played ps))"
  have "set ?shown \<subseteq> set ps"
  proof -
    have "set ?shown \<subseteq> set (js_sort byFantasyPoints (filter played ps))" by (rule set_take_subset)
    then show ?thesis by (auto simp: js_sort_sort_key)
  qed
  with assms(2) have "\<forall>p\<in>set ?shown. player_block p = Inr (player_text p)"
    by (auto intro: player_block_text)
  then have "map_result player_block ?shown = Inr (map player_text ?shown)"
    by (rule map_result_total)
  with assms(1) have "formatPlayerStats d = Inr (join (newline @ newline) (map player_text ?shown))"
    by (simp add: formatPlayerStats_def)
  with top_ten_js_sort [of ps] show ?thesis by blast
qed

theorem players_view_witness:
  "players \<lparr>game = None, teams = None, players = Some ex_players\<rparr> = Some ex_players \<and>
   list_all (\<lambda>p. seconds p \<noteq> None) ex_players \<and>
   (\<exists>shown. top_ten_of ex_players shown \<and>
      formatPlayerStats \<lparr>game = None, teams = None, players = Some ex_players\<rparr> =
        Inr (join (newline @ newline) (map player_text shown))) \<and>
   formatPlayerStats \<lparr>game = None, teams = None, players = Some ex_players\<rparr> =
     Inr (''Cy (G) - 30:42 min\<newline>20 PTS, 5 REB, 7 AST\<newline>8/15 FG, 2/5 3P\<newline>\<newline>''
          @ ''Di (G) - 30:00 min\<newline>20 PTS, 5 REB, 7 AST\<newline>8/15 FG, 2/5 3P\<newline>\<newline>''
          @ ''Ann (G) - 30:05 min\<newline>20 PTS, 5 REB, 7 AST\<newline>8/15 FG, 2/5 3P'') \<and>
   (\<exists>shown. top_ten_of ex_many shown \<and> length shown = 10 \<and>
      formatPlayerStats \<lparr>game = None, teams = None, players = Some ex_many\<rparr> =
        Inr (join (newline @ newline) (map player_text shown)))"
proof -
  let ?d = "\<lparr>game = None, teams = None, players = Some ex_players\<rparr>"
  let ?m = "\<lparr>game = None, teams = None, players = Some ex_many\<rparr>"
  have h1: "players ?d = Some ex_players" by simp
  have h2: "\<forall>p\<in>set ex_players. seconds p \<noteq> None"
    by (simp add: ex_players_def ex_player_def)
  have out: "formatPlayerStats ?d =
     Inr (''Cy (G) - 30:42 min\<newline>20 PTS, 5 REB, 7 AST\<newline>8/15 FG, 2/5 3P\<newline>\<newline>''
          @ ''Di (G) - 30:00 min\<newline>20 PTS, 5 REB, 7 AST\<newline>8/15 FG, 2/5 3P\<newline>\<newline>''
          @ ''Ann (G) - 30:05 min\<newline>20 PTS, 5 REB, 7 AST\<newline>8/15 FG, 2/5 3P'')"
    by code_simp
  have m1: "players ?m = Some ex_many" by simp
  have m2: "\<forall>p\<in>set ex_many. seconds p \<noteq> None"
    by (simp add: ex_many_def ex_player_def)
  have len: "length (filter played ex_many) = 12"
    by (simp add: ex_many_def ex_player_def)
  from players_view [OF m1 m2] obtain shown where s: "top_ten_of ex_many shown"
    "formatPlayerStats ?m = Inr (join (newline @ newline) (map player_text shown))" by blast
  from s(1) len have "length shown = 10" by (auto simp: top_ten_of_def)
  with s have many: "\<exists>shown. top_ten_of ex_many shown \<and> length shown = 10 \<and>
      formatPlayerStats ?m = Inr (join (newline @ newline) (map player_text shown))" by blast
  have h2': "list_all (\<lambda>p. seconds p \<noteq> None) ex_players"
    using h2 by (simp add: list_all_iff)
  from h1 h2' players_view [OF h1 h2] out many show ?thesis by blast
qed

lemma one_line_Nil: "one_line []"
  by (simp add: one_line_def)

lemma one_line_Cons: "one_line (c # s) \<longleftrightarrow> c \<noteq> CHR 0x0A \<and> one_line s"
  by (auto simp: one_line_def)

lemma one_line_append: "one_line (s @ t) \<longleftrightarrow> one_line s \<and> one_line t"
  by (auto simp: one_line_def)

lemmas one_line_simps = one_line_Nil one_line_Cons one_line_append

lemma lines_one_line: "one_line s \<Longrightarrow> lines s = [s]"
  by (induction s) (simp_all add: one_line_simps)

lemma lines_nonempty: "lines s \<noteq> []"
  by (induction s) (simp_all split: list.splits)

lemma lines_append: "one_line s \<Longrightarrow> lines (s @ newline @ t) = s # lines t"
proof (induction s)
  case Nil
  then show ?case using lines_nonempty [of t] by (simp add: newline_def split: list.splits)
next
  case (Cons c s)
  then show ?case by (simp add: one_line_simps)
qed

lemma one_line_show_nat: "one_line (show_nat n)"
proof -
  have "is_digit c \<Longrightarrow> c \<noteq> CHR 0x0A" for c by (auto simp: is_digit_def)
  with show_nat_digits [of n] show ?thesis by (auto simp: one_line_def list_all_iff)
qed

lemma one_line_show_int: "one_line (show_int i)"
  using one_line_show_nat by (simp add: show_int_def one_line_simps)

lemma one_line_quarter_text: "one_line (quarter_text q)"
  by (simp add: quarter_text_def one_line_show_int one_line_simps)

lemma one_line_join: "one_line sep \<Longrightarrow> \<forall>x\<in>set xs. one_line x \<Longrightarrow> one_line (join sep xs)"
  by (induction sep xs rule: join.induct) (simp_all add: one_line_simps)

text \<open>
  Claim C8. For a game record with its game and quarters, the game view is five texts
  joined by line breaks: \<^verbatim>\<open>{awayTeam} {awayScore} @ {homeTeam} {homeScore}\<close>; the localized
  date after the label \<^verbatim>\<open>Date: \<close>; after the label \<^verbatim>\<open>Quarter Scores: \<close> every period as
  \<^verbatim>\<open>Q{n}: {awayScore}-{homeScore}\<close>, joined by a comma and a space; the status after
  \<^verbatim>\<open>Status: \<close>; the venue after \<^verbatim>\<open>Stadium: \<close>. When the team names, the localized date,
  the status and the venue have no line break of their own, these five are exactly the
  lines of the view.
\<close>

theorem game_view:
  assumes "game d = Some g" and "quarters g = Some qs"
  shows "let view =
             [awayTeam g @ '' '' @ show_int (awayTeamScore g) @ '' @ '' @ homeTeam g @ '' ''
                @ show_int (homeTeamScore g),
              ''Date: '' @ localeDate (dateTime g),
              ''Quarter Scores: '' @ join '', '' (map (\<lambda>q. ''Q'' @ show_int (number q) @ '': ''
                 @ show_int (awayScore q) @ ''-'' @ show_int (homeScore q)) qs),
              ''Status: '' @ status g,
              ''Stadium: '' @ stadium g]
         in formatGameSummary localeDate d = Inr (join newline view) \<and>
            (one_line (awayTeam g) \<and> one_line (homeTeam g) \<and>
             one_line (localeDate (dateTime g)) \<and> one_line (status g) \<and> one_line (stadium g)
             \<longrightarrow> lines (join newline view) = view)"
proof -
  have qt: "(\<lambda>q. ''Q'' @ show_int (number q) @ '': ''
                 @ show_int (awayScore q) @ ''-'' @ show_int (homeScore q)) = quarter_text"
    by (intro ext) (simp add: quarter_text_def)
  have out: "formatGameSummary localeDate d =
           Inr (join newline
             [awayTeam g @ '' '' @ show_int (awayTeamScore g) @ '' @ '' @ homeTeam g @ '' ''
                @ show_int (homeTeamScore g),
              ''Date: '' @ localeDate (dateTime g),
              ''Quarter Scores: '' @ join '', '' (map quarter_text qs),
              ''Status: '' @ status g,
              ''Stadium: '' @ stadium g])"
    using assms by (simp add: formatGameSummary_def)
  have ql: "one_line (join '', '' (map quarter_text qs))"
    by (rule one_line_join) (simp_all add: one_line_simps one_line_quarter_text)
  have split: "lines (join newline [a, b, c, e, f]) = [a, b, c, e, f]"
    if "one_line a" "one_line b" "one_line c" "one_line e" "one_line f" for a b c e f
    using that by (simp add: lines_append lines_one_line)
  have "lines (join newline
             [awayTeam g @ '' '' @ show_int (awayTeamScore g) @ '' @ '' @ homeTeam g @ '' ''
                @ show_int (homeTeamScore g),
              ''Date: '' @ localeDate (dateTime g),
              ''Quarter Scores: '' @ join '', '' (map quarter_text qs),
              ''Status: '' @ status g,
              ''Stadium: '' @ stadium g]) =
             [awayTeam g @ '' '' @ show_int (awayTeamScore g) @ '' @ '' @ homeTeam g @ '' ''
                @ show_int (homeTeamScore g),
              ''Date: '' @ localeDate (dateTime g),
              ''Quarter Scores: '' @ join '', '' (map quarter_text qs),
              ''Status: '' @ status g,
              ''Stadium: '' @ stadium g]"
    if a: "one_line (awayTeam g) \<and> one_line (homeTeam g) \<and>
             one_line (localeDate (dateTime g)) \<and> one_line (status g) \<and> one_line (stadium g)"
    by (rule split) (use a ql in \<open>simp_all add: one_line_simps one_line_show_int\<close>)
  with out show ?thesis unfolding Let_def qt by blast
qed

theorem game_view_witness:
  "game \<lparr>game = Some ex_game, teams = Some [], players = Some []\<rparr> = Some ex_game \<and>
   quarters ex_game = Some [\<lparr>number = 1, awayScore = 20, homeScore = 18\<rparr>,
                            \<lparr>number = 2, awayScore = 15, homeScore = 20\<rparr>] \<and>
   (\<exists>out. formatGameSummary (\<lambda>s. ''12/15/2024'')
             \<lparr>game = Some ex_game, teams = Some [], players = Some []\<rparr> = Inr out \<and>
      lines out = [''Celtics 35 @ Lakers 38'', ''Date: 12/15/2024'',
                   ''Quarter Scores: Q1: 20-18, Q2: 15-20'', ''Status: Final'',
                   ''Stadium: Crypto.com Arena''])"
proof -
  let ?d = "\<lparr>game = Some ex_game, teams = Some [], players = Some []\<rparr>"
  let ?qs = "[\<lparr>number = 1, awayScore = 20, homeScore = 18\<rparr>,
              \<lparr>number = 2, awayScore = 15, homeScore = 20\<rparr>]"
  have h1: "game ?d = Some ex_game" by simp
  have h2: "quarters ex_game = Some ?qs" by (simp add: ex_game_def)
  have vals: "show_int 35 = ''35''" "show_int 38 = ''38''" "show_int 20 = ''20''"
    "show_int 18 = ''18''" "show_int 15 = ''15''" "show_int 1 = ''1''" "show_int 2 = ''2''"
    by code_simp+
  have "one_line (awayTeam ex_game) \<and> one_line (homeTeam ex_game) \<and>
    one_line ((\<lambda>s. ''12/15/2024'') (dateTime ex_game)) \<and> one_line (status ex_game) \<and>
    one_line (stadium ex_game)"
    by (simp add: ex_game_def one_line_simps)
  with game_view [OF h1 h2, of "\<lambda>s. ''12/15/2024''"]
  have "\<exists>out. formatGameSummary (\<lambda>s. ''12/15/2024'') ?d = Inr out \<and>
    lines out =
      [awayTeam ex_game @ '' '' @ show_int (awayTeamScore ex_game) @ '' @ '' @ homeTeam ex_game
         @ '' '' @ show_int (homeTeamScore ex_game),
       ''Date: '' @ ''12/15/2024'',
       ''Quarter Scores: '' @ join '', '' (map (\<lambda>q. ''Q'' @ show_int (number q) @ '': ''
          @ show_int (awayScore q) @ ''-'' @ show_int (homeScore q)) ?qs),
       ''Status: '' @ status ex_game,
       ''Stadium: '' @ stadium ex_game]"
    unfolding Let_def by blast
  then have "\<exists>out. formatGameSummary (\<lambda>s. ''12/15/2024'') ?d = Inr out \<and>
      lines out = [''Celtics 35 @ Lakers 38'', ''Date: 12/15/2024'',
                   ''Quarter Scores: Q1: 20-18, Q2: 15-20'', ''Status: Final'',
                   ''Stadium: Crypto.com Arena'']"
    by (simp add: ex_game_def vals)
  with h1 h2 show ?thesis by blast
qed

lemma map_result_ok:
  "\<forall>x\<in>set xs. \<exists>y. f x = Inr y \<Longrightarrow> \<exists>ys. map_result f xs = Inr ys"
proof (induction xs)
  case Nil
  then show ?case by simp
next
  case (Cons x xs)
  then obtain y ys where "f x = Inr y" "map_result f xs = Inr ys" by auto
  then show ?case by simp
qed

lemma team_block_ok:
  "fieldGoalsPercentage t \<noteq> None \<Longrightarrow> threePointersPercentage t \<noteq> None \<Longrightarrow>
   \<exists>s. team_block fixed1 t = Inr s"
  by (auto simp: team_block_def)

lemma player_block_ok: "seconds p \<noteq> None \<Longrightarrow> \<exists>s. player_block p = Inr s"
  by (auto simp: player_block_def)

lemma missing_teams_throws:
  "formatTeamStats fixed1 \<lparr>game = g, teams = None, players = ps\<rparr> = Inl (TypeError ''teams'')"
  by (simp add: formatTeamStats_def)

text \<open>
  Claim C9. On a well-formed game record, one that has the game with its quarters, the
  teams with their percentages and the players with their seconds, as every record with
  all the fields of its interface has, none of the three formatters throws: the game view, the teams view and the players view
  each return a text. That holds with no quarters, no teams and no players; the teams view
  of no teams and the players view of no players are the empty text.
\<close>

theorem formatters_never_throw:
  assumes "well_formed d"
  shows "(\<exists>s. formatGameSummary localeDate d = Inr s) \<and>
         (\<exists>s. formatTeamStats fixed1 d = Inr s) \<and>
         (\<exists>s. formatPlayerStats d = Inr s) \<and>
         (teams d = Some [] \<longrightarrow> formatTeamStats fixed1 d = Inr []) \<and>
         (players d = Some [] \<longrightarrow> formatPlayerStats d = Inr [])"
proof -
  from assms obtain g qs ts ps where d: "game d = Some g" "quarters g = Some qs"
    "teams d = Some ts" "players d = Some ps"
    and ts: "\<forall>t\<in>set ts. fieldGoalsPercentage t \<noteq> None \<and> threePointersPercentage t \<noteq> None"
    and ps: "\<forall>p\<in>set ps. seconds p \<noteq> None"
    by (auto simp: well_formed_def list_all_iff split: option.splits)
  have 1: "\<exists>s. formatGameSummary localeDate d = Inr s"
    using d(1,2) by (simp add: formatGameSummary_def)
  from ts have "\<exists>bs. map_result (team_block fixed1) ts = Inr bs"
    by (intro map_result_ok) (auto intro: team_block_ok)
  then have 2: "\<exists>s. formatTeamStats fixed1 d = Inr s"
    using d(3) by (auto simp: formatTeamStats_def)
  let ?shown = "take 10 (js_sort byFantasyPoints (filter played ps))"
  have "set ?shown \<subseteq> set (js_sort byFantasyPoints (filter played ps))"
    by (rule set_take_subset)
  then have "set ?shown \<subseteq> set ps"
    by (auto simp: js_sort_sort_key)
  with ps have "\<forall>p\<in>set ?shown. \<exists>s. player_block p = Inr s"
    by (blast intro: player_block_ok)
  then have "\<exists>bs. map_result player_block ?shown = Inr bs"
    by (rule map_result_ok)
  then have 3: "\<exists>s. formatPlayerStats d = Inr s"
    using d(4) by (auto simp: formatPlayerStats_def)
  have 4: "teams d = Some [] \<longrightarrow> formatTeamStats fixed1 d = Inr []"
    by (simp add: formatTeamStats_def)
  have 5: "players d = Some [] \<longrightarrow> formatPlayerStats d = Inr []"
    by (simp add: formatPlayerStats_def js_sort_def)
  from 1 2 3 4 5 show ?thesis by blast
qed

theorem formatters_never_throw_witness:
  "well_formed \<lparr>game = Some (ex_game\<lparr>quarters := Some []\<rparr>), teams = Some [], players = Some []\<rparr> \<and>
   (\<exists>s. formatGameSummary (\<lambda>s. ''12/15/2024'')
      \<lparr>game = Some (ex_game\<lparr>quarters := Some []\<rparr>), teams = Some [], players = Some []\<rparr> = Inr s) \<and>
   formatTeamStats (\<lambda>x. ''0.0'')
      \<lparr>game = Some (ex_game\<lparr>quarters := Some []\<rparr>), teams = Some [], players = Some []\<rparr> = Inr [] \<and>
   formatPlayerStats
      \<lparr>game = Some (ex_game\<lparr>quarters := Some []\<rparr>), teams = Some [], players = Some []\<rparr> = Inr []"
proof -
  let ?d = "\<lparr>game = Some (ex_game\<lparr>quarters := Some []\<rparr>), teams = Some [], players = Some []\<rparr>"
  have wf: "well_formed ?d"
    by (simp add: well_formed_def)
  from formatters_never_throw [OF wf, of "\<lambda>s. ''12/15/2024''" "\<lambda>x. ''0.0''"] wf
  show ?thesis by simp
qed

lemma handler_allowed:
  "checkLimit w limiter = (True, limiter') \<Longrightarrow>
   handler w cfg limiter message_text =
     (case handler_try w cfg message_text of
        (Inr result, events) \<Rightarrow> (result, events, limiter')
      | (Inl error, events) \<Rightarrow> (handleApiError w error, events, limiter'))"
  by (simp add: handler_def)


lemma fetchFromAPI_filters:
  "fetchFromAPI w (cfg\<lparr>filters := f\<rparr>) sport date = fetchFromAPI w cfg sport date"
  by (simp add: fetchFromAPI_def)

lemma formatContent_filters:
  "formatContent w (cfg\<lparr>filters := f\<rparr>) gs = formatContent w cfg gs"
  by (cases gs) (simp_all add: formatContent_def)

lemma make_results_filters:
  "make_results (cfg\<lparr>filters := f\<rparr>) sport date content = make_results cfg sport date content"
  by (simp add: make_results_def)

lemma handler_try_filters:
  "handler_try w (cfg\<lparr>filters := f\<rparr>) message_text = handler_try w cfg message_text"
  unfolding handler_try_def fetchFromAPI_filters formatContent_filters make_results_filters
  by (rule refl)

lemma handler_try_first_event:
  assumes "validateSearchQuery w message_text = Inr query"
  shows "\<exists>rest. snd (handler_try w cfg message_text) =
           HttpGet (api_url (sport_str (extractSportFromQuery query))
             (extractDateFromQuery (clock w) query)) (''Bearer '' @ apiKey cfg) # rest"
  using assms
  by (auto simp: handler_try_def fetchFromAPI_def Let_def split: sum.splits prod.splits fetch_reply.splits)

text \<open>
  Claim C4. When the rate limiter denies a call, the handler returns at once: nothing is
  sent, neither an HTTP request nor a record for the memory store, and the result is
  \<^verbatim>\<open>{ success: false, response: "Rate limit exceeded. Please try again later." }\<close>.
\<close>

theorem rate_limit_denied:
  assumes "checkLimit w limiter = (False, limiter')"
  shows "handler w cfg limiter message_text =
           (\<lparr>success = False, response = ''Rate limit exceeded. Please try again later.''\<rparr>,
            [], limiter')"
  using assms by (simp add: handler_def)

theorem rate_limit_denied_witness:
  "checkLimit ex_world 60 = (False, 60) \<and>
   handler ex_world ex_config 60 ''Get NBA games for 2024-12-15'' =
     (\<lparr>success = False, response = ''Rate limit exceeded. Please try again later.''\<rparr>, [], 60)"
proof -
  have h: "checkLimit ex_world 60 = (False, 60)"
    by (simp add: ex_world_def)
  from rate_limit_denied [OF h] h show ?thesis by simp
qed

text \<open>
  Claim C5, as the code has it. When the rate limiter lets the call through, the query is
  valid, the fetch succeeds with zero game records and the memory write succeeds, the
  handler returns success with the formatted results, whose one snippet is the empty text.
  Without the memory write succeeding the claim fails: the handler awaits the write before
  it formats, and an API without games together with a failing store gives a result without
  success.
\<close>

theorem zero_records_success:
  assumes "checkLimit w limiter = (True, limiter')"
    and "validateSearchQuery w message_text = Inr query"
    and "fetch w (api_url (sport_str (extractSportFromQuery query))
            (extractDateFromQuery (clock w) query)) (''Bearer '' @ apiKey cfg) =
          HttpResponse True statusText (Inr body)"
    and "data body = []"
    and "fst (memorizeData w (extractSportFromQuery query)
            (extractDateFromQuery (clock w) query) []) = Inr ()"
  shows "\<exists>results events.
           handler w cfg limiter message_text =
             (\<lparr>success = True, response = formatSearchResults w results\<rparr>, events, limiter') \<and>
           map snippet results = [[]]"
proof -
  let ?sport = "extractSportFromQuery query"
  let ?date = "extractDateFromQuery (clock w) query"
  obtain sent where f: "fetchFromAPI w cfg (sport_str ?sport) ?date = (Inr body, sent)"
    using assms(3) by (simp add: fetchFromAPI_def Let_def)
  obtain stored where m: "memorizeData w ?sport ?date (data body) = (Inr (), stored)"
    using assms(4,5) by (cases "memorizeData w ?sport ?date []") simp
  have c: "formatContent w cfg (data body) = Inr []"
    using assms(4) by (simp add: formatContent_def)
  have "handler_try w cfg message_text =
          (Inr \<lparr>success = True,
                response = formatSearchResults w (make_results cfg ?sport ?date [])\<rparr>,
           sent @ stored)"
    using assms(2) f m c by (simp add: handler_try_def Let_def)
  then have h: "handler w cfg limiter message_text =
          (\<lparr>success = True, response = formatSearchResults w (make_results cfg ?sport ?date [])\<rparr>,
           sent @ stored, limiter')"
    using assms(1) by (simp add: handler_allowed)
  have r: "map snippet (make_results cfg ?sport ?date []) = [[]]"
    by (simp add: make_results_def)
  show ?thesis
    by (rule exI [of _ "make_results cfg ?sport ?date []"], rule exI [of _ "sent @ stored"])
      (use h r in simp)
qed

theorem zero_records_success_witness:
  "checkLimit ex_world 0 = (True, 1) \<and>
   validateSearchQuery ex_world ''Get NBA games for 2024-12-15'' = Inr ''Get NBA games for 2024-12-15'' \<and>
   (\<exists>results events.
      handler ex_world ex_config 0 ''Get NBA games for 2024-12-15'' =
        (\<lparr>success = True, response = formatSearchResults ex_world results\<rparr>, events, 1) \<and>
      map snippet results = [[]])"
proof -
  let ?q = "''Get NBA games for 2024-12-15''"
  have 1: "checkLimit ex_world 0 = (True, 1)" by (simp add: ex_world_def)
  have 2: "validateSearchQuery ex_world ?q = Inr ?q" by (simp add: ex_world_def)
  have 3: "fetch ex_world (api_url (sport_str (extractSportFromQuery ?q))
            (extractDateFromQuery (clock ex_world) ?q)) (''Bearer '' @ apiKey ex_config) =
          HttpResponse True ''OK'' (Inr \<lparr>data = [], count = 0\<rparr>)"
    by (simp add: ex_world_def)
  have 4: "data \<lparr>data = [], count = 0\<rparr> = []" by simp
  have 5: "fst (memorizeData ex_world (extractSportFromQuery ?q)
            (extractDateFromQuery (clock ex_world) ?q) []) = Inr ()"
    by (simp add: memorizeData_def ex_world_def Let_def)
  from zero_records_success [OF 1 2 3 4 5] 1 2 show ?thesis by blast
qed

theorem zero_records_counterexample:
  "fetch ex_failing_store ''https://api.ikb.gg/ai/nba/2024-12-15'' ''Bearer key'' =
     HttpResponse True ''OK'' (Inr \<lparr>data = [], count = 0\<rparr>) \<and>
   handler ex_failing_store ex_config 0 ''Get NBA games for 2024-12-15'' =
     (\<lparr>success = False, response = ''memory store unavailable''\<rparr>,
      [HttpGet ''https://api.ikb.gg/ai/nba/2024-12-15'' ''Bearer key'',
       CreateMemory \<lparr>content_text = ''nba game data for 2024-12-15'', content_sport = Nba,
         content_date = ''2024-12-15'', content_data = [], roomId = ''default'',
         userId = ''system''\<rparr> True],
      1)"
  by code_simp



text \<open>
  Claim C7, as the code has it. The handler never reads the configured filters: with any
  other filters it does the same. The request of a valid query goes to the URL of the sport
  and the date found in the text of the query; for a query with neither \<^verbatim>\<open>nfl\<close> nor
  \<^verbatim>\<open>football\<close> and with no \<^verbatim>\<open>YYYY-MM-DD\<close> text that is \<^verbatim>\<open>nba\<close> and the date of the clock,
  whatever the filters say.
\<close>

theorem filters_ignored:
  "handler w (cfg\<lparr>filters := f\<rparr>) limiter message_text = handler w cfg limiter message_text \<and>
   (checkLimit w limiter = (True, limiter') \<and> validateSearchQuery w message_text = Inr query \<longrightarrow>
      (\<exists>rest. fst (snd (handler w cfg limiter message_text)) =
         HttpGet (api_url (sport_str (extractSportFromQuery query))
           (extractDateFromQuery (clock w) query)) (''Bearer '' @ apiKey cfg) # rest) \<and>
      (\<not> contains_ci query ''nfl'' \<and> \<not> contains_ci query ''football'' \<and>
       (\<forall>j d. occurs_at query j d \<longrightarrow> \<not> date_pattern d) \<longrightarrow>
         (\<exists>rest. fst (snd (handler w cfg limiter message_text)) =
            HttpGet (api_url ''nba'' (formatDate (clock w))) (''Bearer '' @ apiKey cfg) # rest)))"
proof -
  have 1: "handler w (cfg\<lparr>filters := f\<rparr>) limiter message_text =
           handler w cfg limiter message_text"
    unfolding handler_def handler_try_filters by (rule refl)
  have 2: "\<exists>rest. fst (snd (handler w cfg limiter message_text)) =
         HttpGet (api_url (sport_str (extractSportFromQuery query))
           (extractDateFromQuery (clock w) query)) (''Bearer '' @ apiKey cfg) # rest"
    if a: "checkLimit w limiter = (True, limiter')" "validateSearchQuery w message_text = Inr query"
  proof -
    from handler_try_first_event [OF a(2), of cfg] obtain rest where
      "snd (handler_try w cfg message_text) =
         HttpGet (api_url (sport_str (extractSportFromQuery query))
           (extractDateFromQuery (clock w) query)) (''Bearer '' @ apiKey cfg) # rest" by blast
    then show ?thesis
      by (cases "handler_try w cfg message_text")
        (auto simp: handler_allowed [OF a(1)] split: sum.splits)
  qed
  have 3: "extractSportFromQuery query = Nba"
    if "\<not> contains_ci query ''nfl''" "\<not> contains_ci query ''football''"
    using that by (simp add: extractSportFromQuery_def contains_ci_iff kw_lower)
  have 4: "extractDateFromQuery (clock w) query = formatDate (clock w)"
    if "\<forall>j d. occurs_at query j d \<longrightarrow> \<not> date_pattern d"
    using that by (rule extract_no_date)
  from 1 2 3 4 show ?thesis
    by (metis sport_str.simps(2))
qed

theorem filters_ignored_witness:
  "handler ex_world (ex_config\<lparr>filters := None\<rparr>) 0 ''scores please'' =
     handler ex_world ex_config 0 ''scores please'' \<and>
   checkLimit ex_world 0 = (True, 1) \<and>
   validateSearchQuery ex_world ''scores please'' = Inr ''scores please'' \<and>
   (\<exists>rest. fst (snd (handler ex_world ex_config 0 ''scores please'')) =
      HttpGet ''https://api.ikb.gg/ai/nba/2026-11-03'' ''Bearer key'' # rest)"
proof -
  let ?q = "''scores please''"
  have a: "checkLimit ex_world 0 = (True, 1)" by (simp add: ex_world_def)
  have v: "validateSearchQuery ex_world ?q = Inr ?q" by (simp add: ex_world_def)
  have k: "\<not> contains_ci ?q ''nfl''" "\<not> contains_ci ?q ''football''"
    unfolding contains_ci_iff by code_simp+
  have "regex_match date_regex ?q = None" by code_simp
  then have n: "\<forall>j d. occurs_at ?q j d \<longrightarrow> \<not> date_pattern d"
    by (rule no_date_by_search)
  have u: "api_url ''nba'' (formatDate (clock ex_world)) = ''https://api.ikb.gg/ai/nba/2026-11-03''"
    "''Bearer '' @ apiKey ex_config = ''Bearer key''"
    by code_simp+
  from filters_ignored [where w = ex_world and cfg = ex_config and f = None and limiter = 0
      and message_text = ?q and limiter' = 1 and query = ?q] a v k n
  have "handler ex_world (ex_config\<lparr>filters := None\<rparr>) 0 ?q = handler ex_world ex_config 0 ?q"
    and "\<exists>rest. fst (snd (handler ex_world ex_config 0 ?q)) =
      HttpGet (api_url ''nba'' (formatDate (clock ex_world))) (''Bearer '' @ apiKey ex_config) # rest"
    by blast+
  with a v show ?thesis unfolding u by blast
qed

theorem filters_counterexample:
  "filters ex_config = Some (Nfl, ''2024-01-01'') \<and>
   fst (snd (handler ex_world ex_config 0 ''scores please'')) =
     [HttpGet ''https://api.ikb.gg/ai/nba/2026-11-03'' ''Bearer key'',
      CreateMemory \<lparr>content_text = ''nba game data for 2026-11-03'', content_sport = Nba,
         content_date = ''2026-11-03'', content_data = [], roomId = ''default'',
         userId = ''system''\<rparr> True]"
  by code_simp

text \<open>
  Claim C10. The action's \<^verbatim>\<open>validate\<close> always answers: it is true exactly when
  \<^verbatim>\<open>validateSearchQuery\<close> accepts the text of the message, and false when
  \<^verbatim>\<open>validateSearchQuery\<close> throws, as it does on an empty query; the error does not escape.
\<close>

theorem validate_total:
  "(validate w message_text \<longleftrightarrow> (\<exists>query. validateSearchQuery w message_text = Inr query)) \<and>
   (validateSearchQuery w message_text = Inl e \<longrightarrow> validate w message_text = False)"
  by (simp add: validate_def split: sum.splits)

theorem validate_total_witness:
  "validateSearchQuery ex_world [] = Inl (ValidationError ''Search query is required'') \<and>
   validate ex_world [] = False \<and>
   validateSearchQuery ex_world ''Get NBA games for 2024-12-15'' = Inr ''Get NBA games for 2024-12-15'' \<and>
   validate ex_world ''Get NBA games for 2024-12-15'' = True"
proof -
  have 1: "validateSearchQuery ex_world [] = Inl (ValidationError ''Search query is required'')"
    by (simp add: ex_world_def)
  have 2: "validateSearchQuery ex_world ''Get NBA games for 2024-12-15'' = Inr ''Get NBA games for 2024-12-15''"
    by (simp add: ex_world_def)
  from validate_total [of ex_world "[]" "ValidationError ''Search query is required''"]
    validate_total [of ex_world "''Get NBA games for 2024-12-15''"] 1 2
  show ?thesis by simp
qed

end
